theory Spec2Isabelle
  imports Main "HOL-Library.AList"
begin

section \<open>The store: users, conversations and messages\<close>

text \<open>
  The server keeps its durable data in three PostgreSQL tables (\<^verbatim>\<open>initDB\<close> and the
  two SQL scripts declare them with the same keys and references). A table is the list
  of its rows. Only the columns the socket handlers read or write are kept: a user's
  \<^verbatim>\<open>email\<close>, \<^verbatim>\<open>password\<close>, \<^verbatim>\<open>avatar\<close> and \<^verbatim>\<open>created_at\<close>, a conversation's
  \<^verbatim>\<open>created_at\<close> and the last-message summary columns of the Supabase script are
  left out. Identifiers are the integers of the \<^verbatim>\<open>SERIAL\<close>
  columns, timestamps are milliseconds (\<^verbatim>\<open>Date.now()\<close> and \<^verbatim>\<open>CURRENT_TIMESTAMP\<close>
  read the same clock, which every inbound event carries as its time).
\<close>

type_synonym user_id = int
type_synonym conv_id = int
type_synonym msg_id = int
type_synonym socket_id = string
type_synonym time = int

record user =
  u_id :: user_id
  u_name :: string
  is_online :: bool
  last_seen :: time

record conversation =
  c_id :: conv_id
  user1_id :: user_id
  user2_id :: user_id

record message =
  m_id :: msg_id
  conversation_id :: conv_id
  sender_id :: user_id
  content :: string
  message_type :: string
  is_delivered :: bool
  is_read :: bool
  delivered_at :: "time option"
  read_at :: "time option"
  created_at :: time

section \<open>Outbound events\<close>

datatype delivery_status = Sent | Delivered

text \<open>One entry of the \<^verbatim>\<open>conversations_updated\<close> payload (the constant fields
  \<^verbatim>\<open>last_message = ''\<close>, \<^verbatim>\<open>unread_count = 0\<close>, ... are the same in every entry).\<close>

record conv_data =
  cd_conversation_id :: conv_id
  other_user_id :: user_id
  other_user_name :: string
  other_user_last_seen :: time
  other_user_online :: bool

text \<open>
  Where an emit goes: \<^verbatim>\<open>socket.emit\<close> answers the socket whose handler runs,
  \<^verbatim>\<open>io.to(id).emit\<close> addresses the room of a socket id (\<open>None\<close> is \<^verbatim>\<open>undefined\<close>, a
  room nobody is in), \<^verbatim>\<open>io.emit\<close> goes to every connected socket and
  \<^verbatim>\<open>socket.to(room).emit\<close> to a room but for the emitting socket.
\<close>

datatype target =
    Reply socket_id
  | ToSocket "socket_id option"
  | Everyone
  | RoomExcept conv_id socket_id

datatype event =
    Authenticated
  | AuthenticationError
  | UserStatusChange user_id bool
  | ConversationsUpdated "conv_data list" user_id
  | MessageNew "message option" conv_id delivery_status
  | MessageError
  | MessageDelivered msg_id conv_id
  | MessageReadReceipt conv_id "msg_id list" user_id
  | MessageReadBroadcast conv_id user_id
  | TypingStart user_id conv_id
  | TypingStop user_id conv_id
  | UserTypingStatus user_id string conv_id bool
  | ConversationOpened conv_id user_id

section \<open>The server state\<close>

text \<open>
  The four module-level \<^verbatim>\<open>Map\<close>s, the open sockets of \<^verbatim>\<open>io.sockets.sockets\<close>, the
  three tables with the sequence behind \<^verbatim>\<open>messages.id\<close>, and the events emitted so
  far, oldest first. \<^verbatim>\<open>userHeartbeats\<close> is an association list in insertion order,
  the order in which the cleanup job walks it.
\<close>

record state =
  connectedUsers :: "user_id \<rightharpoonup> socket_id"
  userSockets :: "socket_id \<rightharpoonup> user_id"
  userHeartbeats :: "(user_id \<times> time) list"
  userTypingStatus :: "user_id \<rightharpoonup> (conv_id \<times> time)"
  sockets :: "socket_id set"
  users :: "user list"
  conversations :: "conversation list"
  messages :: "message list"
  messages_id_seq :: msg_id
  outbox :: "(target \<times> event) list"

definition emit :: "target \<Rightarrow> event \<Rightarrow> state \<Rightarrow> state" where
  "emit t e s = s\<lparr>outbox := outbox s @ [(t, e)]\<rparr>"

text \<open>JavaScript truthiness of a socket id read with \<^verbatim>\<open>Map.get\<close>: \<^verbatim>\<open>undefined\<close> and
  the empty string are falsy. (For a user id read from \<^verbatim>\<open>userSockets\<close> the falsy values
  are \<^verbatim>\<open>undefined\<close> and 0; the handlers below test it in place.)\<close>

definition truthy_sid :: "socket_id option \<Rightarrow> bool" where
  "truthy_sid x = (case x of None \<Rightarrow> False | Some k \<Rightarrow> k \<noteq> [])"

subsection \<open>The SQL statements\<close>

text \<open>\<^verbatim>\<open>UPDATE users SET is_online = $b, last_seen = CURRENT_TIMESTAMP WHERE id = $1\<close>\<close>

definition set_user_status :: "user_id \<Rightarrow> bool \<Rightarrow> time \<Rightarrow> state \<Rightarrow> state" where
  "set_user_status uid b now s =
     s\<lparr>users := map (\<lambda>u. if u_id u = uid then u\<lparr>is_online := b, last_seen := now\<rparr> else u) (users s)\<rparr>"

text \<open>\<^verbatim>\<open>UPDATE users SET last_seen = CURRENT_TIMESTAMP WHERE id = $1\<close>\<close>

definition touch_last_seen :: "user_id \<Rightarrow> time \<Rightarrow> state \<Rightarrow> state" where
  "touch_last_seen uid now s =
     s\<lparr>users := map (\<lambda>u. if u_id u = uid then u\<lparr>last_seen := now\<rparr> else u) (users s)\<rparr>"

datatype db_error = ForeignKeyViolation

text \<open>
  \<^verbatim>\<open>INSERT INTO messages (conversation_id, sender_id, content) VALUES ($1, $2, $3) RETURNING *\<close>.
  The row takes the next value of the sequence and the column defaults. Both
  \<^verbatim>\<open>conversation_id\<close> and \<^verbatim>\<open>sender_id\<close> are declared \<^verbatim>\<open>REFERENCES\<close>: the statement
  fails when either names no row, and the query's promise rejects. The sequence value
  is consumed all the same.
\<close>

definition insert_message ::
  "conv_id \<Rightarrow> user_id \<Rightarrow> string \<Rightarrow> time \<Rightarrow> state \<Rightarrow> (db_error + message) \<times> state" where
  "insert_message conversationId senderId txt now s =
     (let row = \<lparr>m_id = messages_id_seq s, conversation_id = conversationId,
                 sender_id = senderId, content = txt, message_type = ''text'',
                 is_delivered = False, is_read = False, delivered_at = None,
                 read_at = None, created_at = now\<rparr>;
          s1 = s\<lparr>messages_id_seq := messages_id_seq s + 1\<rparr>
      in if conversationId \<in> set (map c_id (conversations s)) \<and> senderId \<in> set (map u_id (users s))
         then (Inr row, s1\<lparr>messages := messages s1 @ [row]\<rparr>)
         else (Inl ForeignKeyViolation, s1))"

text \<open>\<^verbatim>\<open>SELECT user1_id, user2_id FROM conversations WHERE id = $1\<close>\<close>

definition select_conversation :: "conv_id \<Rightarrow> state \<Rightarrow> conversation list" where
  "select_conversation cid s = filter (\<lambda>c. c_id c = cid) (conversations s)"

text \<open>\<^verbatim>\<open>SELECT ... FROM users WHERE id = $1\<close>\<close>

definition select_user :: "user_id \<Rightarrow> state \<Rightarrow> user list" where
  "select_user uid s = filter (\<lambda>u. u_id u = uid) (users s)"

text \<open>\<^verbatim>\<open>UPDATE messages SET is_delivered = true, delivered_at = CURRENT_TIMESTAMP WHERE id = $1\<close>\<close>

definition mark_delivered :: "msg_id \<Rightarrow> time \<Rightarrow> state \<Rightarrow> state" where
  "mark_delivered mid now s =
     s\<lparr>messages := map (\<lambda>m. if m_id m = mid then m\<lparr>is_delivered := True, delivered_at := Some now\<rparr> else m)
                        (messages s)\<rparr>"

text \<open>\<^verbatim>\<open>SELECT * FROM messages WHERE id = $1\<close>\<close>

definition select_message :: "msg_id \<Rightarrow> state \<Rightarrow> message list" where
  "select_message mid s = filter (\<lambda>m. m_id m = mid) (messages s)"

text \<open>
  \<^verbatim>\<open>UPDATE messages SET is_read = true, read_at = CURRENT_TIMESTAMP
  WHERE conversation_id = $1 AND sender_id != $2 AND is_read = false RETURNING id\<close>
\<close>

definition unread_in :: "conv_id \<Rightarrow> user_id \<Rightarrow> message \<Rightarrow> bool" where
  "unread_in cid uid m = (conversation_id m = cid \<and> sender_id m \<noteq> uid \<and> \<not> is_read m)"

definition mark_read :: "conv_id \<Rightarrow> user_id \<Rightarrow> time \<Rightarrow> state \<Rightarrow> msg_id list \<times> state" where
  "mark_read cid uid now s =
     (map m_id (filter (unread_in cid uid) (messages s)),
      s\<lparr>messages := map (\<lambda>m. if unread_in cid uid m then m\<lparr>is_read := True, read_at := Some now\<rparr> else m)
                         (messages s)\<rparr>)"

text \<open>
  The query of \<^verbatim>\<open>deliverPendingMessages\<close>: \<^verbatim>\<open>messages m JOIN conversations c ON
  m.conversation_id = c.id WHERE (c.user1_id = $1 OR c.user2_id = $1) AND m.sender_id != $1
  AND m.is_delivered = false\<close>, one row for each pair of a message and a conversation.
\<close>

definition pending_for :: "user_id \<Rightarrow> state \<Rightarrow> message list" where
  "pending_for uid s =
     concat (map (\<lambda>m. map (\<lambda>c. m)
                    (filter (\<lambda>c. conversation_id m = c_id c \<and> (user1_id c = uid \<or> user2_id c = uid))
                       (conversations s)))
               (filter (\<lambda>m. sender_id m \<noteq> uid \<and> \<not> is_delivered m) (messages s)))"

text \<open>
  The query of \<^verbatim>\<open>emitTypingStatusToRelevantUsers\<close>: for each conversation with
  \<^verbatim>\<open>user1_id = $1 OR user2_id = $1\<close>, the other column (the second \<^verbatim>\<open>WHEN\<close> of the
  \<^verbatim>\<open>CASE\<close> always holds when the first does not, under that \<^verbatim>\<open>WHERE\<close>).
\<close>

definition other_users_of :: "user_id \<Rightarrow> state \<Rightarrow> user_id list" where
  "other_users_of uid s =
     map (\<lambda>c. if user1_id c = uid then user2_id c else user1_id c)
       (filter (\<lambda>c. user1_id c = uid \<or> user2_id c = uid) (conversations s))"

text \<open>\<^verbatim>\<open>userResult.rows[0]?.name || 'Unknown User'\<close>\<close>

definition user_name_of :: "user_id \<Rightarrow> state \<Rightarrow> string" where
  "user_name_of uid s =
     (case select_user uid s of
        [] \<Rightarrow> ''Unknown User''
      | u # _ \<Rightarrow> if u_name u = [] then ''Unknown User'' else u_name u)"

section \<open>The helper functions of the server\<close>

text \<open>\<^verbatim>\<open>emitTypingStatusToRelevantUsers(typingUserId, conversationId, isTyping)\<close>\<close>

fun emit_typing_rows :: "user_id list \<Rightarrow> user_id \<Rightarrow> conv_id \<Rightarrow> bool \<Rightarrow> state \<Rightarrow> state" where
  "emit_typing_rows [] typingUserId conversationId isTyping s = s"
| "emit_typing_rows (otherUserId # rest) typingUserId conversationId isTyping s =
     emit_typing_rows rest typingUserId conversationId isTyping
       (let otherUserSocketId = connectedUsers s otherUserId
        in if truthy_sid otherUserSocketId
           then emit (ToSocket otherUserSocketId)
                  (UserTypingStatus typingUserId (user_name_of typingUserId s) conversationId isTyping) s
           else s)"

definition emitTypingStatusToRelevantUsers :: "user_id \<Rightarrow> conv_id \<Rightarrow> bool \<Rightarrow> state \<Rightarrow> state" where
  "emitTypingStatusToRelevantUsers typingUserId conversationId isTyping s =
     emit_typing_rows (other_users_of typingUserId s) typingUserId conversationId isTyping s"

text \<open>\<^verbatim>\<open>deliverPendingMessages(userId)\<close>: the loop over the rows of the query, then the
  function itself.\<close>

fun deliver_rows :: "message list \<Rightarrow> time \<Rightarrow> state \<Rightarrow> state" where
  "deliver_rows [] now s = s"
| "deliver_rows (message # rest) now s =
     deliver_rows rest now
       (let s1 = mark_delivered (m_id message) now s;
            senderSocketId = connectedUsers s1 (sender_id message)
        in if truthy_sid senderSocketId
           then emit (ToSocket senderSocketId)
                  (MessageDelivered (m_id message) (conversation_id message)) s1
           else s1)"

definition deliverPendingMessages :: "user_id \<Rightarrow> time \<Rightarrow> state \<Rightarrow> state" where
  "deliverPendingMessages userId now s = deliver_rows (pending_for userId s) now s"

text \<open>
  \<^verbatim>\<open>sendUpdatedConversationData(userId)\<close>: one entry for each conversation of the user
  whose other participant is found by \<^verbatim>\<open>.single()\<close> (which reports an error unless
  exactly one row matches, and the loop then goes on to the next conversation).
\<close>

fun conversation_entries :: "conversation list \<Rightarrow> user_id \<Rightarrow> state \<Rightarrow> conv_data list" where
  "conversation_entries [] userId s = []"
| "conversation_entries (conv # rest) userId s =
     (let otherUserId = (if user1_id conv = userId then user2_id conv else user1_id conv)
      in case select_user otherUserId s of
           [userData] \<Rightarrow>
             \<lparr>cd_conversation_id = c_id conv, other_user_id = u_id userData,
              other_user_name = u_name userData, other_user_last_seen = last_seen userData,
              other_user_online = is_online userData\<rparr> # conversation_entries rest userId s
         | _ \<Rightarrow> conversation_entries rest userId s)"

definition sendUpdatedConversationData :: "user_id \<Rightarrow> state \<Rightarrow> state" where
  "sendUpdatedConversationData userId s =
     (let convs = filter (\<lambda>c. user1_id c = userId \<or> user2_id c = userId) (conversations s)
      in if convs = [] then s
         else let conversationData = conversation_entries convs userId s;
                  userSocketId = connectedUsers s userId
              in if truthy_sid userSocketId
                 then emit (ToSocket userSocketId) (ConversationsUpdated conversationData userId) s
                 else s)"

section \<open>The socket handlers\<close>

text \<open>
  Each handler is a function from the state before to the state after, run to
  completion; what can happen when two handlers overlap at their awaits is taken up
  further down, for the two handlers that mark messages delivered. \<^verbatim>\<open>socket.io\<close>
  hands every handler the socket it is registered on; here it is the first argument.
\<close>

text \<open>
  \<^verbatim>\<open>socket.on('disconnect')\<close>. The call of \<^verbatim>\<open>emitTypingStatusToRelevantUsers\<close> is not
  awaited: it stops at its query, so \<^verbatim>\<open>user_status_change\<close> is emitted first and the
  typing events after it.
\<close>

definition on_disconnect :: "socket_id \<Rightarrow> time \<Rightarrow> state \<Rightarrow> state" where
  "on_disconnect sid now s =
     (case userSockets s sid of
        None \<Rightarrow> s
      | Some userId \<Rightarrow>
          if userId = 0 then s
          else
            let s1 = set_user_status userId False now s;
                s2 = s1\<lparr>connectedUsers := (connectedUsers s1)(userId := None),
                        userSockets := (userSockets s1)(sid := None),
                        userHeartbeats := AList.delete userId (userHeartbeats s1)\<rparr>;
                typingData = userTypingStatus s2 userId;
                s3 = s2\<lparr>userTypingStatus := (userTypingStatus s2)(userId := None)\<rparr>;
                s4 = emit Everyone (UserStatusChange userId False) s3
            in (case typingData of
                  None \<Rightarrow> s4
                | Some td \<Rightarrow> emitTypingStatusToRelevantUsers userId (fst td) False s4))"

text \<open>A socket closes (the client leaves, or the server calls \<^verbatim>\<open>disconnect()\<close> on
  it): it leaves \<^verbatim>\<open>io.sockets.sockets\<close> and its \<^verbatim>\<open>disconnect\<close> handler runs.\<close>

definition close_socket :: "socket_id \<Rightarrow> time \<Rightarrow> state \<Rightarrow> state" where
  "close_socket sid now s = on_disconnect sid now (s\<lparr>sockets := sockets s - {sid}\<rparr>)"

text \<open>
  \<^verbatim>\<open>socket.on('authenticate')\<close>, in the order of the source. First the block "clean up
  any existing connections for this user": the old socket id leaves \<^verbatim>\<open>userSockets\<close> and
  the old socket, if it is still open, is disconnected.
\<close>

definition cleanup_existing_connection :: "socket_id \<Rightarrow> user_id \<Rightarrow> time \<Rightarrow> state \<Rightarrow> state" where
  "cleanup_existing_connection sid userId now s =
     (case connectedUsers s userId of
        None \<Rightarrow> s
      | Some existingSocketId \<Rightarrow>
          if existingSocketId \<noteq> [] \<and> existingSocketId \<noteq> sid
          then let s0 = s\<lparr>userSockets := (userSockets s)(existingSocketId := None)\<rparr>
               in if existingSocketId \<in> sockets s0 then close_socket existingSocketId now s0 else s0
          else s)"

text \<open>Then the three \<^verbatim>\<open>set\<close> calls that register the connection.\<close>

definition register_connection :: "socket_id \<Rightarrow> user_id \<Rightarrow> time \<Rightarrow> state \<Rightarrow> state" where
  "register_connection sid userId now s =
     s\<lparr>connectedUsers := (connectedUsers s)(userId \<mapsto> sid),
       userSockets := (userSockets s)(sid \<mapsto> userId),
       userHeartbeats := AList.update userId now (userHeartbeats s)\<rparr>"

text \<open>The handler; its second argument is what \<^verbatim>\<open>jwt.verify\<close> decodes from the token,
  \<open>None\<close> when it throws.\<close>

definition on_authenticate :: "socket_id \<Rightarrow> user_id option \<Rightarrow> time \<Rightarrow> state \<Rightarrow> state" where
  "on_authenticate sid decoded now s =
     (case decoded of
        None \<Rightarrow> emit (Reply sid) AuthenticationError s
      | Some userId \<Rightarrow>
          let s1 = cleanup_existing_connection sid userId now s;
              s2 = register_connection sid userId now s1;
              s3 = set_user_status userId True now s2;
              s4 = deliverPendingMessages userId now s3;
              s5 = sendUpdatedConversationData userId s4;
              s6 = emit Everyone (UserStatusChange userId True) s5
          in emit (Reply sid) Authenticated s6)"

text \<open>\<^verbatim>\<open>socket.on('heartbeat')\<close>\<close>

definition on_heartbeat :: "socket_id \<Rightarrow> time \<Rightarrow> state \<Rightarrow> state" where
  "on_heartbeat sid now s =
     (case userSockets s sid of
        None \<Rightarrow> s
      | Some userId \<Rightarrow>
          if userId = 0 then s
          else touch_last_seen userId now
                 (s\<lparr>userHeartbeats := AList.update userId now (userHeartbeats s)\<rparr>))"

text \<open>\<^verbatim>\<open>socket.on('app_state_change')\<close>\<close>

datatype app_state = Active | Background | Inactive | OtherState

definition on_app_state_change :: "socket_id \<Rightarrow> app_state \<Rightarrow> time \<Rightarrow> state \<Rightarrow> state" where
  "on_app_state_change sid st now s =
     (case userSockets s sid of
        None \<Rightarrow> s
      | Some userId \<Rightarrow>
          if userId = 0 then s
          else if st = Active then
            emit Everyone (UserStatusChange userId True)
              (sendUpdatedConversationData userId
                 (deliverPendingMessages userId now (set_user_status userId True now s)))
          else if st = Background \<or> st = Inactive then
            emit Everyone (UserStatusChange userId False) (set_user_status userId False now s)
          else s)"

text \<open>\<^verbatim>\<open>socket.on('typing:start')\<close> and \<^verbatim>\<open>socket.on('typing:stop')\<close>\<close>

definition on_typing_start :: "socket_id \<Rightarrow> conv_id \<Rightarrow> user_id \<Rightarrow> time \<Rightarrow> state \<Rightarrow> state" where
  "on_typing_start sid conversationId userId now s =
     emitTypingStatusToRelevantUsers userId conversationId True
       (emit (RoomExcept conversationId sid) (TypingStart userId conversationId)
          (s\<lparr>userTypingStatus := (userTypingStatus s)(userId \<mapsto> (conversationId, now))\<rparr>))"

definition on_typing_stop :: "socket_id \<Rightarrow> conv_id \<Rightarrow> user_id \<Rightarrow> state \<Rightarrow> state" where
  "on_typing_stop sid conversationId userId s =
     emitTypingStatusToRelevantUsers userId conversationId False
       (emit (RoomExcept conversationId sid) (TypingStop userId conversationId)
          (s\<lparr>userTypingStatus := (userTypingStatus s)(userId := None)\<rparr>))"

text \<open>\<^verbatim>\<open>socket.on('message:send')\<close>; a rejected insert is caught and answered with
  \<^verbatim>\<open>message:error\<close>.\<close>

definition on_message_send :: "socket_id \<Rightarrow> conv_id \<Rightarrow> string \<Rightarrow> user_id \<Rightarrow> time \<Rightarrow> state \<Rightarrow> state" where
  "on_message_send sid conversationId txt senderId now s =
     (case insert_message conversationId senderId txt now s of
        (Inl err, s1) \<Rightarrow> emit (Reply sid) MessageError s1
      | (Inr message, s1) \<Rightarrow>
          (case select_conversation conversationId s1 of
             [] \<Rightarrow> s1
           | conv # _ \<Rightarrow>
               let otherUserId = (if user1_id conv = senderId then user2_id conv else user1_id conv);
                   otherUserOnline = (case select_user otherUserId s1 of
                                        [] \<Rightarrow> False
                                      | u # _ \<Rightarrow> is_online u)
               in if otherUserOnline then
                    let s2 = mark_delivered (m_id message) now s1;
                        updatedMessage = (case select_message (m_id message) s2 of
                                            [] \<Rightarrow> None
                                          | m # _ \<Rightarrow> Some m);
                        s3 = emit (Reply sid) (MessageNew updatedMessage conversationId Delivered) s2;
                        otherUserSocketId = connectedUsers s3 otherUserId
                    in emit (ToSocket otherUserSocketId)
                         (MessageNew updatedMessage conversationId Delivered) s3
                  else emit (Reply sid) (MessageNew (Some message) conversationId Sent) s1))"

text \<open>\<^verbatim>\<open>socket.on('message:read')\<close>\<close>

definition on_message_read :: "socket_id \<Rightarrow> conv_id \<Rightarrow> user_id \<Rightarrow> time \<Rightarrow> state \<Rightarrow> state" where
  "on_message_read sid conversationId userId now s =
     (case mark_read conversationId userId now s of
        (messageIds, s1) \<Rightarrow>
          let s2 = (if messageIds \<noteq> [] then
                      (case select_conversation conversationId s1 of
                         [] \<Rightarrow> s1
                       | conv # _ \<Rightarrow>
                           let otherUserId = (if user1_id conv = userId then user2_id conv else user1_id conv);
                               otherUserSocketId = connectedUsers s1 otherUserId
                           in if truthy_sid otherUserSocketId
                              then emit (ToSocket otherUserSocketId)
                                     (MessageReadReceipt conversationId messageIds userId) s1
                              else s1)
                    else s1)
          in emit Everyone (MessageReadBroadcast conversationId userId) s2)"

text \<open>\<^verbatim>\<open>socket.on('conversation_opened')\<close>\<close>

definition on_conversation_opened :: "socket_id \<Rightarrow> conv_id \<Rightarrow> user_id \<Rightarrow> state \<Rightarrow> state" where
  "on_conversation_opened sid conversationId userId s =
     emit Everyone (ConversationOpened conversationId userId) s"

section \<open>The heartbeat cleanup job\<close>

text \<open>The body of the \<^verbatim>\<open>setInterval\<close> callback of \<^verbatim>\<open>startHeartbeatCleanup\<close>: the loop
  over the entries of \<^verbatim>\<open>userHeartbeats\<close>, with \<^verbatim>\<open>HEARTBEAT_TIMEOUT = 30000\<close>.\<close>

fun sweep_entries :: "(user_id \<times> time) list \<Rightarrow> time \<Rightarrow> state \<Rightarrow> state" where
  "sweep_entries [] now s = s"
| "sweep_entries ((userId, lastHeartbeat) # rest) now s =
     sweep_entries rest now
       (if now - lastHeartbeat > 30000 then
          let s1 = set_user_status userId False now s;
              socketId = connectedUsers s1 userId;
              s2 = s1\<lparr>connectedUsers := (connectedUsers s1)(userId := None)\<rparr>;
              s3 = (case socketId of
                      None \<Rightarrow> s2
                    | Some k \<Rightarrow> if k = [] then s2 else s2\<lparr>userSockets := (userSockets s2)(k := None)\<rparr>);
              s4 = s3\<lparr>userHeartbeats := AList.delete userId (userHeartbeats s3)\<rparr>
          in emit Everyone (UserStatusChange userId False) s4
        else s)"

definition heartbeat_cleanup :: "time \<Rightarrow> state \<Rightarrow> state" where
  "heartbeat_cleanup now s = sweep_entries (userHeartbeats s) now s"

section \<open>Runs of the server\<close>

text \<open>What reaches the server: a new connection, one of the socket events with its
  payload, the close of a socket, or a tick of the cleanup timer.\<close>

datatype inbound =
    Connection socket_id
  | Authenticate socket_id "user_id option"
  | Heartbeat socket_id
  | AppStateChange socket_id app_state
  | TypingStartReq socket_id conv_id user_id
  | TypingStopReq socket_id conv_id user_id
  | MessageSend socket_id conv_id string user_id
  | MessageReadReq socket_id conv_id user_id
  | ConversationOpenedReq socket_id conv_id user_id
  | Disconnect socket_id
  | CleanupTick

fun step :: "state \<Rightarrow> time \<times> inbound \<Rightarrow> state" where
  "step s (now, Connection sid) = s\<lparr>sockets := insert sid (sockets s)\<rparr>"
| "step s (now, Authenticate sid decoded) = on_authenticate sid decoded now s"
| "step s (now, Heartbeat sid) = on_heartbeat sid now s"
| "step s (now, AppStateChange sid st) = on_app_state_change sid st now s"
| "step s (now, TypingStartReq sid cid uid) = on_typing_start sid cid uid now s"
| "step s (now, TypingStopReq sid cid uid) = on_typing_stop sid cid uid s"
| "step s (now, MessageSend sid cid txt uid) = on_message_send sid cid txt uid now s"
| "step s (now, MessageReadReq sid cid uid) = on_message_read sid cid uid now s"
| "step s (now, ConversationOpenedReq sid cid uid) = on_conversation_opened sid cid uid s"
| "step s (now, Disconnect sid) = close_socket sid now s"
| "step s (now, CleanupTick) = heartbeat_cleanup now s"

definition run :: "state \<Rightarrow> (time \<times> inbound) list \<Rightarrow> state" where
  "run s evs = foldl step s evs"

text \<open>The state of a server that has just started on a given store: no connection,
  empty maps, nothing emitted.\<close>

definition started :: "user list \<Rightarrow> conversation list \<Rightarrow> message list \<Rightarrow> msg_id \<Rightarrow> state" where
  "started us cs ms seq =
     \<lparr>connectedUsers = Map.empty, userSockets = Map.empty, userHeartbeats = [],
      userTypingStatus = Map.empty, sockets = {}, users = us, conversations = cs,
      messages = ms, messages_id_seq = seq, outbox = []\<rparr>"

section \<open>The handlers between their awaits\<close>

text \<open>
  A handler is an \<^verbatim>\<open>async\<close> function: it runs until it awaits a query, and other
  handlers run while it is suspended. Here the two handlers that mark a message
  delivered are cut at their awaits. One step is one query together with the
  synchronous code that follows it; the position in the handler carries the local
  variables that are live there. \<^verbatim>\<open>CURRENT_TIMESTAMP\<close> is read at each step.
\<close>

text \<open>
  \<^verbatim>\<open>message:send\<close>: before the insert; with \<^verbatim>\<open>message\<close>, before the conversation is
  read; with \<^verbatim>\<open>otherUserId\<close>, before \<^verbatim>\<open>is_online\<close> is read; before the update that marks
  the message delivered; before the updated message is read back and the two events are
  emitted; done.
\<close>

datatype send_pc =
    SendStart
  | SendInserted message
  | SendFoundOther message user_id
  | SendOnline message user_id
  | SendMarked message user_id
  | SendDone

fun send_step ::
  "socket_id \<Rightarrow> conv_id \<Rightarrow> string \<Rightarrow> user_id \<Rightarrow> time \<Rightarrow> send_pc \<Rightarrow> state \<Rightarrow> send_pc \<times> state" where
  "send_step sid conversationId txt senderId now SendStart s =
     (case insert_message conversationId senderId txt now s of
        (Inl err, s1) \<Rightarrow> (SendDone, emit (Reply sid) MessageError s1)
      | (Inr message, s1) \<Rightarrow> (SendInserted message, s1))"
| "send_step sid conversationId txt senderId now (SendInserted message) s =
     (case select_conversation conversationId s of
        [] \<Rightarrow> (SendDone, s)
      | conv # _ \<Rightarrow>
          (SendFoundOther message (if user1_id conv = senderId then user2_id conv else user1_id conv), s))"
| "send_step sid conversationId txt senderId now (SendFoundOther message otherUserId) s =
     (let otherUserOnline = (case select_user otherUserId s of
                               [] \<Rightarrow> False
                             | u # _ \<Rightarrow> is_online u)
      in if otherUserOnline then (SendOnline message otherUserId, s)
         else (SendDone, emit (Reply sid) (MessageNew (Some message) conversationId Sent) s))"
| "send_step sid conversationId txt senderId now (SendOnline message otherUserId) s =
     (SendMarked message otherUserId, mark_delivered (m_id message) now s)"
| "send_step sid conversationId txt senderId now (SendMarked message otherUserId) s =
     (let updatedMessage = (case select_message (m_id message) s of
                              [] \<Rightarrow> None
                            | m # _ \<Rightarrow> Some m);
          s3 = emit (Reply sid) (MessageNew updatedMessage conversationId Delivered) s;
          otherUserSocketId = connectedUsers s3 otherUserId
      in (SendDone,
          emit (ToSocket otherUserSocketId) (MessageNew updatedMessage conversationId Delivered) s3))"
| "send_step sid conversationId txt senderId now SendDone s = (SendDone, s)"

text \<open>
  \<^verbatim>\<open>authenticate\<close>: before the token is verified and the connection registered; before
  the user is marked online; before the pending messages are read; in the loop of
  \<^verbatim>\<open>deliverPendingMessages\<close>, with the rows still to go (when none is left, the
  conversation data is sent and the last two events are emitted); done.
\<close>

datatype auth_pc =
    AuthStart
  | AuthRegistered user_id
  | AuthMarkedOnline user_id
  | AuthDelivering user_id "message list"
  | AuthDone

fun auth_step :: "socket_id \<Rightarrow> user_id option \<Rightarrow> time \<Rightarrow> auth_pc \<Rightarrow> state \<Rightarrow> auth_pc \<times> state" where
  "auth_step sid decoded now AuthStart s =
     (case decoded of
        None \<Rightarrow> (AuthDone, emit (Reply sid) AuthenticationError s)
      | Some userId \<Rightarrow>
          (AuthRegistered userId,
           register_connection sid userId now (cleanup_existing_connection sid userId now s)))"
| "auth_step sid decoded now (AuthRegistered userId) s =
     (AuthMarkedOnline userId, set_user_status userId True now s)"
| "auth_step sid decoded now (AuthMarkedOnline userId) s =
     (AuthDelivering userId (pending_for userId s), s)"
| "auth_step sid decoded now (AuthDelivering userId (message # rest)) s =
     (AuthDelivering userId rest, deliver_rows [message] now s)"
| "auth_step sid decoded now (AuthDelivering userId []) s =
     (AuthDone,
      emit (Reply sid) Authenticated
        (emit Everyone (UserStatusChange userId True) (sendUpdatedConversationData userId s)))"
| "auth_step sid decoded now AuthDone s = (AuthDone, s)"

text \<open>Handlers in progress, and a schedule: which of them takes its next step, and
  when.\<close>

datatype task =
    SendTask socket_id conv_id string user_id send_pc
  | AuthTask socket_id "user_id option" auth_pc

fun task_step :: "time \<Rightarrow> task \<Rightarrow> state \<Rightarrow> task \<times> state" where
  "task_step now (SendTask sid conversationId txt senderId pc) s =
     (case send_step sid conversationId txt senderId now pc s of
        (pc', s') \<Rightarrow> (SendTask sid conversationId txt senderId pc', s'))"
| "task_step now (AuthTask sid decoded pc) s =
     (case auth_step sid decoded now pc s of
        (pc', s') \<Rightarrow> (AuthTask sid decoded pc', s'))"



text \<open>A handler that is not interrupted: it takes all its steps at once.\<close>

fun run_task :: "nat \<Rightarrow> time \<Rightarrow> task \<Rightarrow> state \<Rightarrow> task \<times> state" where
  "run_task 0 now t s = (t, s)"
| "run_task (Suc n) now t s = (case task_step now t s of (t', s') \<Rightarrow> run_task n now t' s')"

section \<open>Notions used to state the properties\<close>

text \<open>The row \<^verbatim>\<open>message:send\<close> inserts: the next sequence value and the column defaults.\<close>

definition new_row :: "conv_id \<Rightarrow> string \<Rightarrow> user_id \<Rightarrow> time \<Rightarrow> state \<Rightarrow> message" where
  "new_row conversationId txt senderId now s =
     \<lparr>m_id = messages_id_seq s, conversation_id = conversationId,
      sender_id = senderId, content = txt, message_type = ''text'',
      is_delivered = False, is_read = False, delivered_at = None,
      read_at = None, created_at = now\<rparr>"

text \<open>What \<^verbatim>\<open>UPDATE messages SET is_delivered = true, delivered_at = ...\<close> makes of a row.\<close>

definition delivered_row :: "time \<Rightarrow> message \<Rightarrow> message" where
  "delivered_row now m = m\<lparr>is_delivered := True, delivered_at := Some now\<rparr>"

text \<open>The handlers' \<^verbatim>\<open>conv.user1_id === id ? conv.user2_id : conv.user1_id\<close>.\<close>

definition other_participant :: "conversation \<Rightarrow> user_id \<Rightarrow> user_id" where
  "other_participant conv uid = (if user1_id conv = uid then user2_id conv else user1_id conv)"

text \<open>The two readings of "online" in \<^verbatim>\<open>message:send\<close>: \<^verbatim>\<open>otherUserOnline\<close>, the
  \<^verbatim>\<open>is_online\<close> column of the store, and \<^verbatim>\<open>socketOnline\<close>, a connection registered in
  \<^verbatim>\<open>connectedUsers\<close>.\<close>

definition store_online :: "state \<Rightarrow> user_id \<Rightarrow> bool" where
  "store_online s uid = (case select_user uid s of [] \<Rightarrow> False | u # _ \<Rightarrow> is_online u)"

definition socket_online :: "state \<Rightarrow> user_id \<Rightarrow> bool" where
  "socket_online s uid = (connectedUsers s uid \<noteq> None)"

text \<open>The \<^verbatim>\<open>user_typing_status\<close> events a typing change of a user fans out: one for
  each conversation row of the user whose other participant has a connection registered.\<close>

definition typing_fanout :: "user_id \<Rightarrow> conv_id \<Rightarrow> bool \<Rightarrow> state \<Rightarrow> (target \<times> event) list" where
  "typing_fanout typingUserId conversationId isTyping s =
     map (\<lambda>otherUserId. (ToSocket (connectedUsers s otherUserId),
            UserTypingStatus typingUserId (user_name_of typingUserId s) conversationId isTyping))
       (filter (\<lambda>otherUserId. truthy_sid (connectedUsers s otherUserId)) (other_users_of typingUserId s))"

text \<open>The \<^verbatim>\<open>message:read\<close> receipt for the other participant, when there is one to send.\<close>

definition read_receipt :: "conv_id \<Rightarrow> user_id \<Rightarrow> state \<Rightarrow> (target \<times> event) list" where
  "read_receipt conversationId userId s =
     (let messageIds = map m_id (filter (unread_in conversationId userId) (messages s))
      in if messageIds = [] then []
         else case select_conversation conversationId s of
                [] \<Rightarrow> []
              | conv # _ \<Rightarrow>
                  if truthy_sid (connectedUsers s (other_participant conv userId))
                  then [(ToSocket (connectedUsers s (other_participant conv userId)),
                         MessageReadReceipt conversationId messageIds userId)]
                  else [])"

text \<open>The events of a log that tell that a user stopped typing.\<close>

fun is_typing_stop :: "user_id \<Rightarrow> target \<times> event \<Rightarrow> bool" where
  "is_typing_stop uid (t, UserTypingStatus u n c b) = (u = uid \<and> \<not> b)"
| "is_typing_stop uid (t, e) = False"







text \<open>
  A row of the messages table has advanced to another when it is the same message and
  no flag that was set is cleared; a table has advanced when it has kept all its rows,
  in place, each advanced.
\<close>

definition row_advances :: "message \<Rightarrow> message \<Rightarrow> bool" where
  "row_advances m m' =
     (m_id m' = m_id m \<and> (is_delivered m \<longrightarrow> is_delivered m') \<and> (is_read m \<longrightarrow> is_read m'))"

definition table_advances :: "message list \<Rightarrow> message list \<Rightarrow> bool" where
  "table_advances ms ms' =
     (length ms \<le> length ms' \<and> (\<forall>i<length ms. row_advances (ms ! i) (ms' ! i)))"

text \<open>
  What tells the sender of a message that it was delivered: a \<^verbatim>\<open>message:delivered\<close>
  event for the message id, or the handler's own answer \<^verbatim>\<open>message:new\<close> with
  \<^verbatim>\<open>deliveryStatus: 'delivered'\<close> (the copy addressed with \<^verbatim>\<open>io.to\<close> is the
  recipient's).
\<close>

fun sender_delivered_notice :: "msg_id \<Rightarrow> target \<times> event \<Rightarrow> bool" where
  "sender_delivered_notice mid (t, MessageDelivered k c) = (k = mid)"
| "sender_delivered_notice mid (Reply sid, MessageNew (Some m) c Delivered) = (m_id m = mid)"
| "sender_delivered_notice mid (t, e) = False"



text \<open>A list of events without any such notice.\<close>

definition no_notice :: "(target \<times> event) list \<Rightarrow> bool" where
  "no_notice x = (\<forall>mid. filter (sender_delivered_notice mid) x = [])"

text \<open>
  A delivered row is settled in a later table when it is still delivered there, with the
  \<^verbatim>\<open>delivered_at\<close> it had.
\<close>

definition row_settled :: "message \<Rightarrow> message \<Rightarrow> bool" where
  "row_settled m m' = (is_delivered m \<longrightarrow> is_delivered m' \<and> delivered_at m' = delivered_at m)"

definition table_settled :: "message list \<Rightarrow> message list \<Rightarrow> bool" where
  "table_settled ms ms' =
     (length ms \<le> length ms' \<and> (\<forall>i<length ms. row_settled (ms ! i) (ms' ! i)))"



subsection \<open>A sample store\<close>

text \<open>Three users and the conversation 10 of the first two; no message yet.\<close>

definition alice :: user where
  "alice = \<lparr>u_id = 1, u_name = ''Alice'', is_online = False, last_seen = 0\<rparr>"

definition bob :: user where
  "bob = \<lparr>u_id = 2, u_name = ''Bob'', is_online = False, last_seen = 0\<rparr>"

definition carol :: user where
  "carol = \<lparr>u_id = 3, u_name = ''Carol'', is_online = False, last_seen = 0\<rparr>"

definition conv10 :: conversation where
  "conv10 = \<lparr>c_id = 10, user1_id = 1, user2_id = 2\<rparr>"

definition demo :: state where
  "demo = started [alice, bob, carol] [conv10] [] 1"

text \<open>Alice and Bob have both connected and authenticated.\<close>

definition both_connected :: state where
  "both_connected =
     run demo [(0, Connection ''a''), (1, Connection ''b''),
               (2, Authenticate ''a'' (Some 1)), (3, Authenticate ''b'' (Some 2))]"

text \<open>Then Bob's application went to the background.\<close>

definition bob_in_background :: state where
  "bob_in_background = on_app_state_change ''b'' Background 4 both_connected"

text \<open>Then Alice started typing in conversation 10 and fell silent, while Bob's
  heartbeats kept coming.\<close>

definition alice_typing :: state where
  "alice_typing = on_heartbeat ''b'' 20000 (on_typing_start ''a'' 10 1 4 both_connected)"



text \<open>Bob reads conversation 10, leaves and comes back; later the cleanup job runs.\<close>

definition read_then_leave :: "(time \<times> inbound) list" where
  "read_then_leave =
     [(6, MessageReadReq ''b'' 10 2), (7, Disconnect ''b''), (8, Connection ''b2''),
      (9, Authenticate ''b2'' (Some 2)), (50000, CleanupTick)]"






section \<open>Properties\<close>

lemmas demo_defs = demo_def started_def alice_def bob_def carol_def conv10_def

lemmas sql_defs = set_user_status_def touch_last_seen_def insert_message_def
  select_conversation_def select_user_def mark_delivered_def select_message_def unread_in_def
  mark_read_def pending_for_def other_users_of_def user_name_of_def emit_def truthy_sid_def

lemmas handler_defs = on_disconnect_def close_socket_def cleanup_existing_connection_def
  register_connection_def on_authenticate_def on_heartbeat_def
  on_app_state_change_def on_typing_start_def on_typing_stop_def on_message_send_def
  on_message_read_def on_conversation_opened_def heartbeat_cleanup_def
  emitTypingStatusToRelevantUsers_def deliverPendingMessages_def sendUpdatedConversationData_def

subsection \<open>The sample states\<close>

lemma both_connected_fields:
  "connectedUsers both_connected 1 = Some ''a''"
  "connectedUsers both_connected 2 = Some ''b''"
  "userSockets both_connected ''a'' = Some 1"
  "userSockets both_connected ''b'' = Some 2"
  "userHeartbeats both_connected = [(1, 2), (2, 3)]"
  "users both_connected =
     [alice\<lparr>is_online := True, last_seen := 2\<rparr>, bob\<lparr>is_online := True, last_seen := 3\<rparr>, carol]"
  "messages both_connected = []"
  "conversations both_connected = [conv10]"
  "messages_id_seq both_connected = 1"
  "sockets both_connected = {''a'', ''b''}"
  "userTypingStatus both_connected = Map.empty"
  by (simp_all add: both_connected_def run_def demo_defs sql_defs handler_defs Let_def insert_commute)

lemma bob_in_background_fields:
  "connectedUsers bob_in_background 2 = Some ''b''"
  "users bob_in_background =
     [alice\<lparr>is_online := True, last_seen := 2\<rparr>, bob\<lparr>is_online := False, last_seen := 4\<rparr>, carol]"
  "messages bob_in_background = []"
  "conversations bob_in_background = [conv10]"
  "messages_id_seq bob_in_background = 1"
  "sockets bob_in_background = {''a'', ''b''}"
  "userSockets bob_in_background ''b'' = Some 2"
  by (simp_all add: bob_in_background_def both_connected_fields on_app_state_change_def sql_defs demo_defs)

subsection \<open>Sending a message\<close>

lemma filter_fresh: "\<forall>m\<in>set ms. m_id m \<noteq> k \<Longrightarrow> filter (\<lambda>m. m_id m = k) ms = []"
  by (induction ms) auto

lemma map_fresh:
  "\<forall>m\<in>set ms. m_id m \<noteq> k \<Longrightarrow> map (\<lambda>m. if m_id m = k then f m else m) ms = ms"
  by (induction ms) auto

text \<open>An insert the foreign keys refuse: the handler's \<^verbatim>\<open>catch\<close> answers with
  \<^verbatim>\<open>message:error\<close> and nothing else happens (but the sequence has moved on).\<close>

lemma send_rejected:
  assumes "conversationId \<notin> set (map c_id (conversations s)) \<or> senderId \<notin> set (map u_id (users s))"
  shows "on_message_send sid conversationId txt senderId now s =
          s\<lparr>messages_id_seq := messages_id_seq s + 1, outbox := outbox s @ [(Reply sid, MessageError)]\<rparr>"
  using assms by (auto simp: on_message_send_def insert_message_def emit_def Let_def)

text \<open>An accepted insert, in a store whose message ids are all different from the next
  sequence value: the whole effect of the handler.\<close>

lemma send_accepted:
  assumes conv: "select_conversation conversationId s = conv # rest"
    and sender: "senderId \<in> set (map u_id (users s))"
    and fresh: "\<forall>m\<in>set (messages s). m_id m \<noteq> messages_id_seq s"
  shows "on_message_send sid conversationId txt senderId now s =
     (if store_online s (other_participant conv senderId)
      then s\<lparr>messages_id_seq := messages_id_seq s + 1,
             messages := messages s @ [delivered_row now (new_row conversationId txt senderId now s)],
             outbox := outbox s @
               [(Reply sid, MessageNew (Some (delivered_row now (new_row conversationId txt senderId now s)))
                              conversationId Delivered),
                (ToSocket (connectedUsers s (other_participant conv senderId)),
                 MessageNew (Some (delivered_row now (new_row conversationId txt senderId now s)))
                   conversationId Delivered)]\<rparr>
      else s\<lparr>messages_id_seq := messages_id_seq s + 1,
             messages := messages s @ [new_row conversationId txt senderId now s],
             outbox := outbox s @
               [(Reply sid, MessageNew (Some (new_row conversationId txt senderId now s)) conversationId Sent)]\<rparr>)"
proof -
  have mem: "conversationId \<in> set (map c_id (conversations s))"
  proof -
    have "conv \<in> set (filter (\<lambda>c. c_id c = conversationId) (conversations s))"
      using conv by (simp add: select_conversation_def)
    then show ?thesis by auto
  qed
  show ?thesis
    using conv sender mem filter_fresh[OF fresh] map_fresh[OF fresh]
    by (simp add: on_message_send_def insert_message_def emit_def Let_def select_conversation_def
        select_user_def select_message_def mark_delivered_def store_online_def other_participant_def
        new_row_def delivered_row_def)
qed

text \<open>
  C1, as stated, fails: in \<open>bob_in_background\<close> Bob, the other participant of
  conversation 10, has a connection registered in \<^verbatim>\<open>connectedUsers\<close> and his socket is
  open, yet Alice's message stays undelivered and only Alice is notified, with status
  \<^verbatim>\<open>sent\<close>. The handler decides on the \<^verbatim>\<open>is_online\<close> column, which
  \<^verbatim>\<open>app_state_change\<close> has set to false.
\<close>

theorem send_to_registered_user_counterexample:
  "select_conversation 10 bob_in_background = [conv10] \<and>
   other_participant conv10 1 = 2 \<and>
   socket_online bob_in_background 2 \<and> ''b'' \<in> sockets bob_in_background \<and>
   messages (on_message_send ''a'' 10 ''hi'' 1 5 bob_in_background) =
     [new_row 10 ''hi'' 1 5 bob_in_background] \<and>
   \<not> is_delivered (new_row 10 ''hi'' 1 5 bob_in_background) \<and>
   outbox (on_message_send ''a'' 10 ''hi'' 1 5 bob_in_background) =
     outbox bob_in_background @
       [(Reply ''a'', MessageNew (Some (new_row 10 ''hi'' 1 5 bob_in_background)) 10 Sent)]"
  by (simp add: bob_in_background_fields socket_online_def other_participant_def new_row_def
      on_message_send_def sql_defs Let_def demo_defs)

text \<open>
  C1, amended: for a \<^verbatim>\<open>message:send\<close> whose conversation exists and whose sender is a
  stored user (so that the insert is accepted, the message ids in the store being
  below the sequence), the new message is stored delivered (\<^verbatim>\<open>is_delivered = true\<close>,
  \<^verbatim>\<open>delivered_at\<close> set) if and only if the store's \<^verbatim>\<open>is_online\<close> flag of the other
  participant is true. Then the sending socket is answered with \<^verbatim>\<open>message:new\<close>
  carrying the row after the transition and status \<^verbatim>\<open>delivered\<close>, and the same event
  is addressed to the socket registered for the other participant. Otherwise the row
  stays as inserted and the only event is the sender's \<^verbatim>\<open>message:new\<close> with status
  \<^verbatim>\<open>sent\<close>.
\<close>

theorem send_delivers_iff_store_online:
  assumes "select_conversation conversationId s = conv # rest"
    and "senderId \<in> set (map u_id (users s))"
    and "\<forall>m\<in>set (messages s). m_id m \<noteq> messages_id_seq s"
  shows "messages (on_message_send sid conversationId txt senderId now s) =
           messages s @ [if store_online s (other_participant conv senderId)
                         then delivered_row now (new_row conversationId txt senderId now s)
                         else new_row conversationId txt senderId now s] \<and>
         outbox (on_message_send sid conversationId txt senderId now s) =
           outbox s @
           (if store_online s (other_participant conv senderId)
            then [(Reply sid, MessageNew (Some (delivered_row now (new_row conversationId txt senderId now s)))
                                conversationId Delivered),
                  (ToSocket (connectedUsers s (other_participant conv senderId)),
                   MessageNew (Some (delivered_row now (new_row conversationId txt senderId now s)))
                     conversationId Delivered)]
            else [(Reply sid, MessageNew (Some (new_row conversationId txt senderId now s))
                                conversationId Sent)])"
  using send_accepted[OF assms] by simp

theorem send_delivers_iff_store_online_witness:
  "select_conversation 10 both_connected = conv10 # [] \<and>
   1 \<in> set (map u_id (users both_connected)) \<and>
   store_online both_connected (other_participant conv10 1) \<and>
   messages (on_message_send ''a'' 10 ''hi'' 1 5 both_connected) =
     [delivered_row 5 (new_row 10 ''hi'' 1 5 both_connected)] \<and>
   is_delivered (delivered_row 5 (new_row 10 ''hi'' 1 5 both_connected)) \<and>
   outbox (on_message_send ''a'' 10 ''hi'' 1 5 both_connected) =
     outbox both_connected @
       [(Reply ''a'', MessageNew (Some (delivered_row 5 (new_row 10 ''hi'' 1 5 both_connected))) 10 Delivered),
        (ToSocket (Some ''b''),
         MessageNew (Some (delivered_row 5 (new_row 10 ''hi'' 1 5 both_connected))) 10 Delivered)]"
proof -
  have c: "select_conversation 10 both_connected = conv10 # []"
    by (simp add: select_conversation_def both_connected_fields conv10_def)
  have u: "1 \<in> set (map u_id (users both_connected))"
    by (simp add: both_connected_fields alice_def)
  have f: "\<forall>m\<in>set (messages both_connected). m_id m \<noteq> messages_id_seq both_connected"
    by (simp add: both_connected_fields)
  have o: "store_online both_connected (other_participant conv10 1)"
    by (simp add: store_online_def other_participant_def select_user_def both_connected_fields
        demo_defs)
  have p: "other_participant conv10 1 = 2"
    by (simp add: other_participant_def conv10_def)
  show ?thesis
    using send_delivers_iff_store_online [OF c u f, of "''a''" "''hi''" 5] c u o
    by (simp add: p both_connected_fields delivered_row_def)
qed

text \<open>
  C10, as stated, fails: conversation 11 has no record, and the message is not
  persisted; the sender is answered with \<^verbatim>\<open>message:error\<close>.
\<close>

theorem send_unknown_conversation_counterexample:
  "10 \<in> set (map c_id (conversations demo)) \<and> 11 \<notin> set (map c_id (conversations demo)) \<and>
   messages (on_message_send ''a'' 11 ''hi'' 1 5 demo) = [] \<and>
   outbox (on_message_send ''a'' 11 ''hi'' 1 5 demo) = [(Reply ''a'', MessageError)]"
  by (simp add: demo_defs sql_defs handler_defs Let_def)

text \<open>
  C10, amended: for every \<^verbatim>\<open>message:send\<close> whose \<^verbatim>\<open>conversationId\<close> is the id of no
  conversation record, the insert is refused by the foreign key of
  \<^verbatim>\<open>messages.conversation_id\<close>: no message is persisted, and exactly one event is
  emitted, a \<^verbatim>\<open>message:error\<close> to the sending socket; there is no \<^verbatim>\<open>message:new\<close> and
  no recipient is notified.
\<close>

theorem send_unknown_conversation_rejected:
  assumes "conversationId \<notin> set (map c_id (conversations s))"
  shows "messages (on_message_send sid conversationId txt senderId now s) = messages s \<and>
         outbox (on_message_send sid conversationId txt senderId now s) =
           outbox s @ [(Reply sid, MessageError)]"
  using assms by (simp add: send_rejected)

theorem send_unknown_conversation_rejected_witness:
  "11 \<notin> set (map c_id (conversations demo)) \<and>
   messages (on_message_send ''a'' 11 ''hi'' 1 5 demo) = messages demo \<and>
   outbox (on_message_send ''a'' 11 ''hi'' 1 5 demo) = outbox demo @ [(Reply ''a'', MessageError)]"
proof -
  have h: "11 \<notin> set (map c_id (conversations demo))"
    by (simp add: demo_defs)
  show ?thesis
    using h send_unknown_conversation_rejected [OF h, of "''a''" "''hi''" 1 5] by simp
qed

text \<open>
  C8: the code has no participant check. In the sample store conversation 10 is
  between users 1 and 2. A \<^verbatim>\<open>message:send\<close> with \<^verbatim>\<open>senderId = 3\<close> inserts a message row
  into it, and a \<^verbatim>\<open>message:read\<close> with \<^verbatim>\<open>userId = 3\<close> marks the message user 1 sent
  there as read.
\<close>

theorem non_participant_send_and_read:
  "select_conversation 10 demo = [conv10] \<and> user1_id conv10 \<noteq> 3 \<and> user2_id conv10 \<noteq> 3 \<and>
   messages (on_message_send ''c'' 10 ''hello'' 3 5 demo) = [new_row 10 ''hello'' 3 5 demo] \<and>
   messages (on_message_send ''a'' 10 ''hi'' 1 5 demo) = [new_row 10 ''hi'' 1 5 demo] \<and>
   messages (on_message_read ''c'' 10 3 6 (on_message_send ''a'' 10 ''hi'' 1 5 demo)) =
     [(new_row 10 ''hi'' 1 5 demo)\<lparr>is_read := True, read_at := Some 6\<rparr>]"
  by (simp add: demo_defs sql_defs handler_defs Let_def new_row_def)

subsection \<open>Read receipts\<close>

lemma on_message_read_fields:
  "messages (on_message_read sid conversationId userId now s) =
     map (\<lambda>m. if unread_in conversationId userId m then m\<lparr>is_read := True, read_at := Some now\<rparr> else m)
       (messages s)"
  "outbox (on_message_read sid conversationId userId now s) =
     outbox s @ read_receipt conversationId userId s @
       [(Everyone, MessageReadBroadcast conversationId userId)]"
  "conversations (on_message_read sid conversationId userId now s) = conversations s"
  "messages_id_seq (on_message_read sid conversationId userId now s) = messages_id_seq s"
  by (simp_all add: on_message_read_def mark_read_def emit_def read_receipt_def Let_def
      select_conversation_def other_participant_def split: list.splits)



subsection \<open>Typing indicators\<close>

lemma user_name_of_emit [simp]: "user_name_of u (emit t e s) = user_name_of u s"
  by (simp add: user_name_of_def select_user_def emit_def)

lemma emit_typing_rows_eq:
  "emit_typing_rows os t c b s =
     s\<lparr>outbox := outbox s @
         map (\<lambda>otherUserId. (ToSocket (connectedUsers s otherUserId),
                UserTypingStatus t (user_name_of t s) c b))
           (filter (\<lambda>otherUserId. truthy_sid (connectedUsers s otherUserId)) os)\<rparr>"
proof (induction os arbitrary: s)
  case Nil
  then show ?case by simp
next
  case (Cons otherUserId os)
  show ?case
    by (simp add: Cons.IH Let_def) (simp add: emit_def)
qed

lemma emitTypingStatus_eq:
  "emitTypingStatusToRelevantUsers t c b s = s\<lparr>outbox := outbox s @ typing_fanout t c b s\<rparr>"
  by (simp add: emitTypingStatusToRelevantUsers_def emit_typing_rows_eq typing_fanout_def)

lemma typing_fanout_frame [simp]:
  "typing_fanout t c b (s\<lparr>outbox := ob\<rparr>) = typing_fanout t c b s"
  "typing_fanout t c b (s\<lparr>userTypingStatus := ts\<rparr>) = typing_fanout t c b s"
  by (simp_all add: typing_fanout_def other_users_of_def user_name_of_def select_user_def)


text \<open>
  C6: the heartbeat path misses the cleanup. Alice (user 1) is typing in conversation
  10 and Bob, who shares it, is connected and alive. When her heartbeat times out the
  cleanup job removes her connection (and leaves Bob's), but her typing state stays and
  no \<^verbatim>\<open>user_typing_status\<close> with \<^verbatim>\<open>isTyping = false\<close> is emitted. The \<^verbatim>\<open>disconnect\<close>
  handler, in the same state, removes the typing state and sends Bob exactly one such
  event.
\<close>

theorem heartbeat_timeout_keeps_typing_state:
  "userTypingStatus alice_typing 1 = Some (10, 4) \<and>
   userHeartbeats alice_typing = [(1, 2), (2, 20000)] \<and>
   connectedUsers (heartbeat_cleanup 40000 alice_typing) 1 = None \<and>
   connectedUsers (heartbeat_cleanup 40000 alice_typing) 2 = Some ''b'' \<and>
   userTypingStatus (heartbeat_cleanup 40000 alice_typing) 1 = Some (10, 4) \<and>
   filter (is_typing_stop 1) (outbox (heartbeat_cleanup 40000 alice_typing)) = [] \<and>
   userTypingStatus (close_socket ''a'' 5 alice_typing) 1 = None \<and>
   filter (is_typing_stop 1) (outbox (close_socket ''a'' 5 alice_typing)) =
     [(ToSocket (Some ''b''), UserTypingStatus 1 ''Alice'' 10 False)]"
  by code_simp

subsection \<open>What each operation leaves unchanged\<close>

lemma emit_frame [simp]:
  "connectedUsers (emit t e s) = connectedUsers s"
  "userSockets (emit t e s) = userSockets s"
  "userHeartbeats (emit t e s) = userHeartbeats s"
  "userTypingStatus (emit t e s) = userTypingStatus s"
  "sockets (emit t e s) = sockets s"
  "users (emit t e s) = users s"
  "conversations (emit t e s) = conversations s"
  "messages (emit t e s) = messages s"
  "messages_id_seq (emit t e s) = messages_id_seq s"
  "outbox (emit t e s) = outbox s @ [(t, e)]"
  by (simp_all add: emit_def)

lemma set_user_status_frame [simp]:
  "connectedUsers (set_user_status u b now s) = connectedUsers s"
  "userSockets (set_user_status u b now s) = userSockets s"
  "userHeartbeats (set_user_status u b now s) = userHeartbeats s"
  "userTypingStatus (set_user_status u b now s) = userTypingStatus s"
  "sockets (set_user_status u b now s) = sockets s"
  "conversations (set_user_status u b now s) = conversations s"
  "messages (set_user_status u b now s) = messages s"
  "messages_id_seq (set_user_status u b now s) = messages_id_seq s"
  "outbox (set_user_status u b now s) = outbox s"
  by (simp_all add: set_user_status_def)

lemma touch_last_seen_frame [simp]:
  "connectedUsers (touch_last_seen u now s) = connectedUsers s"
  "userSockets (touch_last_seen u now s) = userSockets s"
  "userHeartbeats (touch_last_seen u now s) = userHeartbeats s"
  "userTypingStatus (touch_last_seen u now s) = userTypingStatus s"
  "sockets (touch_last_seen u now s) = sockets s"
  "conversations (touch_last_seen u now s) = conversations s"
  "messages (touch_last_seen u now s) = messages s"
  "messages_id_seq (touch_last_seen u now s) = messages_id_seq s"
  "outbox (touch_last_seen u now s) = outbox s"
  by (simp_all add: touch_last_seen_def)

lemma mark_delivered_frame [simp]:
  "connectedUsers (mark_delivered k now s) = connectedUsers s"
  "userSockets (mark_delivered k now s) = userSockets s"
  "userHeartbeats (mark_delivered k now s) = userHeartbeats s"
  "userTypingStatus (mark_delivered k now s) = userTypingStatus s"
  "sockets (mark_delivered k now s) = sockets s"
  "users (mark_delivered k now s) = users s"
  "conversations (mark_delivered k now s) = conversations s"
  "messages_id_seq (mark_delivered k now s) = messages_id_seq s"
  "outbox (mark_delivered k now s) = outbox s"
  by (simp_all add: mark_delivered_def)


text \<open>The whole effect of the replay loop.\<close>

lemma deliver_rows_eq:
  "deliver_rows rows now s =
     s\<lparr>messages := map (\<lambda>m. if m_id m \<in> set (map m_id rows) then delivered_row now m else m) (messages s),
       outbox := outbox s @
         map (\<lambda>r. (ToSocket (connectedUsers s (sender_id r)), MessageDelivered (m_id r) (conversation_id r)))
           (filter (\<lambda>r. truthy_sid (connectedUsers s (sender_id r))) rows)\<rparr>"
proof (induction rows arbitrary: s)
  case Nil
  then show ?case by simp
next
  case (Cons r rows)
  have m: "map (\<lambda>m. if m_id m \<in> set (map m_id rows) then delivered_row now m else m)
             (map (\<lambda>m. if m_id m = m_id r then m\<lparr>is_delivered := True, delivered_at := Some now\<rparr> else m) ms) =
           map (\<lambda>m. if m_id m \<in> set (map m_id (r # rows)) then delivered_row now m else m) ms" for ms
    by (induction ms) (auto simp: delivered_row_def)
  show ?case
    by (simp add: Cons.IH Let_def) (simp add: mark_delivered_def m[simplified])
qed

lemma deliverPendingMessages_eq:
  "deliverPendingMessages u now s =
     s\<lparr>messages := map (\<lambda>m. if m_id m \<in> set (map m_id (pending_for u s)) then delivered_row now m else m) (messages s),
       outbox := outbox s @
         map (\<lambda>r. (ToSocket (connectedUsers s (sender_id r)), MessageDelivered (m_id r) (conversation_id r)))
           (filter (\<lambda>r. truthy_sid (connectedUsers s (sender_id r))) (pending_for u s))\<rparr>"
  by (simp add: deliverPendingMessages_def deliver_rows_eq)

lemma sendUpdatedConversationData_frame [simp]:
  "connectedUsers (sendUpdatedConversationData u s) = connectedUsers s"
  "userSockets (sendUpdatedConversationData u s) = userSockets s"
  "userHeartbeats (sendUpdatedConversationData u s) = userHeartbeats s"
  "userTypingStatus (sendUpdatedConversationData u s) = userTypingStatus s"
  "sockets (sendUpdatedConversationData u s) = sockets s"
  "users (sendUpdatedConversationData u s) = users s"
  "conversations (sendUpdatedConversationData u s) = conversations s"
  "messages (sendUpdatedConversationData u s) = messages s"
  "messages_id_seq (sendUpdatedConversationData u s) = messages_id_seq s"
  by (simp_all add: sendUpdatedConversationData_def Let_def)

lemma pending_for_frame [simp]:
  "pending_for u (set_user_status v b now s) = pending_for u s"
  "pending_for u (emit t e s) = pending_for u s"
  "pending_for u (s\<lparr>connectedUsers := cu\<rparr>) = pending_for u s"
  "pending_for u (s\<lparr>userSockets := us\<rparr>) = pending_for u s"
  "pending_for u (s\<lparr>userHeartbeats := hb\<rparr>) = pending_for u s"
  "pending_for u (s\<lparr>sockets := so\<rparr>) = pending_for u s"
  by (simp_all add: pending_for_def)

text \<open>A socket without an entry in userSockets: its disconnect handler does nothing.\<close>

lemma on_disconnect_unregistered:
  "userSockets s sid = None \<Longrightarrow> on_disconnect sid now s = s"
  by (simp add: on_disconnect_def)

lemma on_disconnect_frame [simp]:
  "conversations (on_disconnect sid now s) = conversations s"
  "messages (on_disconnect sid now s) = messages s"
  "messages_id_seq (on_disconnect sid now s) = messages_id_seq s"
  "sockets (on_disconnect sid now s) = sockets s"
  by (simp_all add: on_disconnect_def Let_def emitTypingStatus_eq split: option.splits)

lemma sweep_entries_frame [simp]:
  "conversations (sweep_entries es now s) = conversations s"
  "messages (sweep_entries es now s) = messages s"
  "messages_id_seq (sweep_entries es now s) = messages_id_seq s"
  "sockets (sweep_entries es now s) = sockets s"
  "userTypingStatus (sweep_entries es now s) = userTypingStatus s"
  by (induction es now s rule: sweep_entries.induct; simp add: Let_def split: option.splits)+

subsection \<open>The registry\<close>





text \<open>What authenticate does to the registry.\<close>

lemma cleanup_existing_connection_eq:
  "cleanup_existing_connection sid u now s =
     (case connectedUsers s u of
        None \<Rightarrow> s
      | Some old \<Rightarrow>
          if old \<noteq> [] \<and> old \<noteq> sid
          then s\<lparr>userSockets := (userSockets s)(old := None), sockets := sockets s - {old}\<rparr>
          else s)"
  by (simp add: cleanup_existing_connection_def Let_def close_socket_def on_disconnect_unregistered
      split: option.splits)

lemma cleanup_existing_connection_frame [simp]:
  "connectedUsers (cleanup_existing_connection sid u now s) = connectedUsers s"
  "userHeartbeats (cleanup_existing_connection sid u now s) = userHeartbeats s"
  "userTypingStatus (cleanup_existing_connection sid u now s) = userTypingStatus s"
  "users (cleanup_existing_connection sid u now s) = users s"
  "conversations (cleanup_existing_connection sid u now s) = conversations s"
  "messages (cleanup_existing_connection sid u now s) = messages s"
  "messages_id_seq (cleanup_existing_connection sid u now s) = messages_id_seq s"
  "outbox (cleanup_existing_connection sid u now s) = outbox s"
  by (simp_all add: cleanup_existing_connection_eq split: option.splits)

lemma register_connection_frame [simp]:
  "connectedUsers (register_connection sid u now s) = (connectedUsers s)(u \<mapsto> sid)"
  "userSockets (register_connection sid u now s) = (userSockets s)(sid \<mapsto> u)"
  "sockets (register_connection sid u now s) = sockets s"
  "userTypingStatus (register_connection sid u now s) = userTypingStatus s"
  "users (register_connection sid u now s) = users s"
  "conversations (register_connection sid u now s) = conversations s"
  "messages (register_connection sid u now s) = messages s"
  "messages_id_seq (register_connection sid u now s) = messages_id_seq s"
  "outbox (register_connection sid u now s) = outbox s"
  by (simp_all add: register_connection_def)

lemma deliverPendingMessages_frame [simp]:
  "connectedUsers (deliverPendingMessages u now s) = connectedUsers s"
  "userSockets (deliverPendingMessages u now s) = userSockets s"
  "userHeartbeats (deliverPendingMessages u now s) = userHeartbeats s"
  "userTypingStatus (deliverPendingMessages u now s) = userTypingStatus s"
  "sockets (deliverPendingMessages u now s) = sockets s"
  "users (deliverPendingMessages u now s) = users s"
  "conversations (deliverPendingMessages u now s) = conversations s"
  "messages_id_seq (deliverPendingMessages u now s) = messages_id_seq s"
  by (simp_all add: deliverPendingMessages_eq)







subsection \<open>Replay on reconnect\<close>








lemma on_authenticate_messages:
  "messages (on_authenticate sid (Some u) now s) =
     map (\<lambda>m. if m_id m \<in> set (map m_id (pending_for u s)) then delivered_row now m else m) (messages s)"
  by (simp add: on_authenticate_def Let_def deliverPendingMessages_eq pending_for_def)





lemma no_notice_typing_fanout [simp]: "no_notice (typing_fanout u c b s)"
  by (simp add: no_notice_def typing_fanout_def filter_empty_conv)

lemma no_notice_read_receipt [simp]: "no_notice (read_receipt c u s)"
  by (auto simp: no_notice_def read_receipt_def Let_def split: list.splits)










subsection \<open>The delivery flags\<close>


lemma table_advances_refl [simp]: "table_advances ms ms"
  by (simp add: table_advances_def row_advances_def)

lemma table_advances_trans:
  "table_advances ms ms' \<Longrightarrow> table_advances ms' ms'' \<Longrightarrow> table_advances ms ms''"
  unfolding table_advances_def row_advances_def
  by (metis (no_types, lifting) le_trans less_le_trans)

lemma table_advances_map:
  "(\<And>m. row_advances m (f m)) \<Longrightarrow> table_advances ms (map f ms)"
  by (simp add: table_advances_def)

lemma table_advances_append: "table_advances ms (ms @ xs)"
  by (simp add: table_advances_def row_advances_def nth_append)

lemma table_advances_map_append:
  "(\<And>m. row_advances m (f m)) \<Longrightarrow> table_advances ms (map f ms @ xs)"
  by (simp add: table_advances_def nth_append)

lemma row_advances_simps [simp]:
  "row_advances m m"
  "row_advances m (delivered_row now m)"
  "row_advances m (m\<lparr>is_read := True, read_at := r\<rparr>)"
  "row_advances m (m\<lparr>is_delivered := True, delivered_at := d\<rparr>)"
  by (simp_all add: row_advances_def delivered_row_def)

lemma on_message_send_messages:
  "messages (on_message_send sid c txt u now s) = messages s \<or>
   messages (on_message_send sid c txt u now s) = messages s @ [new_row c txt u now s] \<or>
   messages (on_message_send sid c txt u now s) =
     map (\<lambda>m. if m_id m = messages_id_seq s then m\<lparr>is_delivered := True, delivered_at := Some now\<rparr> else m)
       (messages s @ [new_row c txt u now s])"
  by (simp add: on_message_send_def insert_message_def Let_def mark_delivered_def new_row_def
      split: list.splits)

lemma on_app_state_change_messages:
  "messages (on_app_state_change sid st now s) = messages s \<or>
   (\<exists>u. messages (on_app_state_change sid st now s) =
      map (\<lambda>m. if m_id m \<in> set (map m_id (pending_for u s)) then delivered_row now m else m) (messages s))"
  by (auto simp: on_app_state_change_def deliverPendingMessages_eq pending_for_def split: option.splits)

lemma table_advances_step: "table_advances (messages s) (messages (step s (now, e)))"
proof (cases e)
  case (Authenticate sid decoded)
  show ?thesis
  proof (cases decoded)
    case None
    with Authenticate show ?thesis by (simp add: on_authenticate_def)
  next
    case (Some u)
    with Authenticate show ?thesis
      by (simp add: on_authenticate_messages del: set_map) (intro table_advances_map, simp)
  qed
next
  case (AppStateChange sid st)
  then show ?thesis
    using on_app_state_change_messages[of sid st now s] by (auto intro!: table_advances_map)
next
  case (MessageSend sid c body u)
  then show ?thesis
    using on_message_send_messages[of sid c body u now s]
    by (elim disjE) (simp_all add: table_advances_append table_advances_map_append)
next
  case (MessageReadReq sid c u)
  then show ?thesis
    by (simp add: on_message_read_fields table_advances_map)
next
  case (Heartbeat sid)
  then show ?thesis by (simp add: on_heartbeat_def split: option.splits)
next
  case (TypingStartReq sid c u)
  then show ?thesis by (simp add: on_typing_start_def emitTypingStatus_eq)
next
  case (TypingStopReq sid c u)
  then show ?thesis by (simp add: on_typing_stop_def emitTypingStatus_eq)
next
  case (Disconnect sid)
  then show ?thesis by (simp add: close_socket_def)
next
  case CleanupTick
  then show ?thesis by (simp add: heartbeat_cleanup_def)
qed (simp_all add: on_conversation_opened_def)

lemma table_advances_run: "table_advances (messages s) (messages (run s evs))"
  unfolding run_def
proof (induction evs arbitrary: s)
  case Nil
  then show ?case by simp
next
  case (Cons e evs)
  obtain now ev where e: "e = (now, ev)" by (cases e)
  show ?case
    using table_advances_trans[OF table_advances_step[of s now ev] Cons.IH[of "step s (now, ev)"]]
    by (simp add: e)
qed

text \<open>
  C2, as stated, fails: Bob's application is in the background when Alice sends; the
  message is stored undelivered, and Bob's \<^verbatim>\<open>message:read\<close> then marks it read while
  \<^verbatim>\<open>is_delivered\<close> is still false.
\<close>

theorem read_before_delivered_counterexample:
  "map (\<lambda>m. (m_id m, is_delivered m, is_read m))
     (messages (on_message_send ''a'' 10 ''hi'' 1 5 bob_in_background)) = [(1, False, False)] \<and>
   map (\<lambda>m. (m_id m, is_delivered m, is_read m))
     (messages (on_message_read ''b'' 10 2 6 (on_message_send ''a'' 10 ''hi'' 1 5 bob_in_background))) =
     [(1, False, True)]"
  by code_simp

text \<open>
  C2, amended: over any sequence of events (\<^verbatim>\<open>message:send\<close>, \<^verbatim>\<open>message:read\<close>,
  replays on reconnect, heartbeats, cleanup ticks and all the others), every message
  stays in the table, and no operation sets its \<^verbatim>\<open>is_delivered\<close> or its \<^verbatim>\<open>is_read\<close>
  back to false. (The two flags are set independently of each other: \<^verbatim>\<open>message:read\<close>
  does not ask for \<^verbatim>\<open>is_delivered\<close>.)
\<close>

theorem delivery_flags_never_regress:
  "table_advances (messages s) (messages (run s evs))"
  by (rule table_advances_run)

theorem delivery_flags_never_regress_witness:
  "0 < length (messages (on_message_send ''a'' 10 ''hi'' 1 5 both_connected)) \<and>
   is_delivered (messages (on_message_send ''a'' 10 ''hi'' 1 5 both_connected) ! 0) \<and>
   m_id (messages (run (on_message_send ''a'' 10 ''hi'' 1 5 both_connected) read_then_leave) ! 0) =
     m_id (messages (on_message_send ''a'' 10 ''hi'' 1 5 both_connected) ! 0) \<and>
   is_delivered (messages (run (on_message_send ''a'' 10 ''hi'' 1 5 both_connected) read_then_leave) ! 0)"
proof -
  let ?s = "on_message_send ''a'' 10 ''hi'' 1 5 both_connected"
  have l: "0 < length (messages ?s)" by code_simp
  have d: "is_delivered (messages ?s ! 0)" by code_simp
  have "row_advances (messages ?s ! 0) (messages (run ?s read_then_leave) ! 0)"
    using delivery_flags_never_regress [of ?s read_then_leave] l
    unfolding table_advances_def by blast
  then show ?thesis using l d unfolding row_advances_def by blast
qed

subsection \<open>Delivered once\<close>










lemma on_app_state_change_frame [simp]:
  "conversations (on_app_state_change sid st now s) = conversations s"
  "messages_id_seq (on_app_state_change sid st now s) = messages_id_seq s"
  by (simp_all add: on_app_state_change_def split: option.splits)

lemma on_authenticate_frame [simp]:
  "conversations (on_authenticate sid decoded now s) = conversations s"
  "messages_id_seq (on_authenticate sid decoded now s) = messages_id_seq s"
  by (simp_all add: on_authenticate_def Let_def split: option.splits)

lemma map_read_never [simp]:
  "map (\<lambda>m. if False then m\<lparr>is_read := True, read_at := Some now\<rparr> else m) ms = ms"
  by simp







lemma table_settled_refl [simp]: "table_settled ms ms"
  by (simp add: table_settled_def row_settled_def)













subsection \<open>Overlapping handlers\<close>

text \<open>A handler cut at its awaits and run without interruption, every step at the same
  time, is the handler of the sections above.\<close>

lemma send_uninterrupted:
  "run_task 5 now (SendTask sid c body u SendStart) s =
     (SendTask sid c body u SendDone, on_message_send sid c body u now s)"
  by (simp add: eval_nat_numeral on_message_send_def Let_def insert_message_def
      split: prod.splits sum.splits list.splits)

lemma deliver_rows_Cons:
  "deliver_rows (r # rows) now s = deliver_rows rows now (deliver_rows [r] now s)"
  by simp

lemma replay_loop_uninterrupted:
  "run_task (Suc (length rows)) now (AuthTask sid d (AuthDelivering u rows)) s =
     (AuthTask sid d AuthDone,
      emit (Reply sid) Authenticated
        (emit Everyone (UserStatusChange u True) (sendUpdatedConversationData u (deliver_rows rows now s))))"
proof (induction rows arbitrary: s)
  case Nil
  then show ?case by simp
next
  case (Cons r rows)
  have "run_task (Suc (length (r # rows))) now (AuthTask sid d (AuthDelivering u (r # rows))) s =
        run_task (Suc (length rows)) now (AuthTask sid d (AuthDelivering u rows)) (deliver_rows [r] now s)"
    by simp
  then show ?case
    unfolding Cons.IH deliver_rows_Cons[of r rows] by simp
qed

lemma auth_uninterrupted:
  "\<exists>n. run_task n now (AuthTask sid d AuthStart) s = (AuthTask sid d AuthDone, on_authenticate sid d now s)"
proof (cases d)
  case None
  have "run_task 1 now (AuthTask sid None AuthStart) s =
          (AuthTask sid None AuthDone, on_authenticate sid None now s)"
    by (simp add: on_authenticate_def)
  then show ?thesis using None by blast
next
  case (Some u)
  let ?s3 = "set_user_status u True now (register_connection sid u now (cleanup_existing_connection sid u now s))"
  have "run_task (Suc (Suc (Suc (Suc (length (pending_for u ?s3)))))) now (AuthTask sid (Some u) AuthStart) s =
        run_task (Suc (length (pending_for u ?s3))) now
          (AuthTask sid (Some u) (AuthDelivering u (pending_for u ?s3))) ?s3"
    by simp
  also have "\<dots> = (AuthTask sid (Some u) AuthDone, on_authenticate sid (Some u) now s)"
    unfolding replay_loop_uninterrupted
    by (simp add: on_authenticate_def Let_def deliverPendingMessages_def)
  finally show ?thesis using Some by blast
qed


end
